theory Spec2Isabelle
  imports Complex_Main "HOL-Library.Sublist"
begin

unbundle bit_operations_syntax

section \<open>Data model\<close>

text \<open>
  The Python package \<open>quadkey\<close>: the class \<open>QuadKey\<close> and the module-level
  constructors of \<open>quadkey/__init__.py\<close>.  Exceptions are values of the type \<open>error\<close>;
  a function that can raise returns \<open>error + 'a\<close> with \<open>Inl\<close> for the exception.
\<close>

datatype error = InvalidKey | InvalidCoordinate | AssertionError | TypeError

text \<open>A \<open>QuadKey\<close> object: the two attributes set by \<open>__init__\<close>.\<close>

record QuadKey =
  key :: string
  level :: nat

type_synonym tile = "int \<times> int"

type_synonym pixel = "int \<times> int"

text \<open>
  A geographic point \<open>(lat, lon)\<close>, in degrees.  The functions of this file only compare
  the two numbers with the bounds of their ranges.
\<close>

type_synonym geo = "real \<times> real"

section \<open>Collaborators outside \<open>quadkey/__init__.py\<close>\<close>

definition valid_key :: "string \<Rightarrow> bool" where
  \<comment> \<open>Modelled from the spec: \<open>tile_system.valid_key\<close> is imported by the source but its
      module is not part of the sources at hand.  Spec 4.1: true iff the key length is in
      [1,23] and every character is one of '0','1','2','3'.\<close>
  "valid_key k =
     (1 \<le> length k \<and> length k \<le> 23 \<and>
      list_all (\<lambda>c. c = CHR ''0'' \<or> c = CHR ''1'' \<or> c = CHR ''2'' \<or> c = CHR ''3'') k)"

definition precondition :: "error \<Rightarrow> bool \<Rightarrow> (error + 'a) \<Rightarrow> error + 'a" where
  \<comment> \<open>Modelled from the spec: the decorator \<open>util.precondition\<close> is imported by the source
      but its module is not part of the sources at hand.  Spec 4.2, 6 and 7: the guarded
      function is entered only when the predicate holds on its arguments; otherwise the call
      fails at once with the error kind of the guarded constructor (\<open>InvalidKey\<close> for a
      malformed key, \<open>InvalidCoordinate\<close> for a geographic point out of range).\<close>
  "precondition e ok body = (if ok then body else Inl e)"

definition digit_char :: "nat \<Rightarrow> char" where
  \<comment> \<open>The character of a decimal digit \<open>d < 10\<close>.\<close>
  "digit_char d = ''0123456789'' ! d"

fun tq_digits :: "int \<Rightarrow> int \<Rightarrow> nat \<Rightarrow> string" where
  \<comment> \<open>Modelled from the spec: the loop of \<open>TileSystem.tile_to_quadkey\<close> (see below), with
      \<open>Suc b\<close> for the loop variable \<open>i\<close>.\<close>
  "tq_digits tx ty 0 = []"
| "tq_digits tx ty (Suc b) =
     digit_char ((if bit tx b then 1 else 0) + (if bit ty b then 2 else 0)) # tq_digits tx ty b"

definition tile_to_quadkey :: "tile \<Rightarrow> int \<Rightarrow> string" where
  \<comment> \<open>Modelled from the spec: \<open>TileSystem.tile_to_quadkey\<close> is called by the source but the
      module \<open>tile_system\<close> is not part of the sources at hand.  Spec 4.1: for \<open>i\<close> from
      \<open>level\<close> down to 1 the digit starts at 0, 1 is added if the bit of \<open>tileX\<close> for this
      position is set and 2 if the bit of \<open>tileY\<close> is, and the digit is appended; the
      digits run from the most significant (\<open>i = level\<close>) to the least, which interleaves
      the bits of \<open>tileY\<close> and \<open>tileX\<close>, most significant first, \<open>tileY\<close> giving the high bit
      of each digit.  So the digit written at \<open>i\<close> reads the bit of weight \<open>2 ^ (i - 1)\<close>:
      the spec's bit index \<open>level - i\<close> counts positions from the most significant end.
      A level below 1 runs the loop zero times.  Python's \<open>&\<close> on a negative integer reads
      its infinite two's complement, as \<open>bit\<close> does on \<open>int\<close>.\<close>
  "tile_to_quadkey t lvl = tq_digits (fst t) (snd t) (nat lvl)"

definition digit_of :: "char \<Rightarrow> int" where
  \<comment> \<open>Modelled from the spec: the digit that \<open>TileSystem.quadkey_to_tile\<close> (see below)
      reads from a character of the key.\<close>
  "digit_of c = of_char c - of_char CHR ''0''"

definition qt_step :: "tile \<Rightarrow> char \<Rightarrow> tile" where
  \<comment> \<open>Modelled from the spec: one round of the loop of \<open>TileSystem.quadkey_to_tile\<close>
      (see below).\<close>
  "qt_step t c =
     (push_bit 1 (fst t) OR (digit_of c AND 1),
      push_bit 1 (snd t) OR (drop_bit 1 (digit_of c) AND 1))"

definition quadkey_to_tile :: "string \<Rightarrow> tile \<times> nat" where
  \<comment> \<open>Modelled from the spec: \<open>TileSystem.quadkey_to_tile\<close> is called by the source but the
      module \<open>tile_system\<close> is not part of the sources at hand.  Spec 4.1: for each digit
      from the most to the least significant, \<open>tileX\<close> and \<open>tileY\<close> are shifted left by one
      and bit 0, respectively bit 1, of the digit is OR-ed in; the level is the length of
      the key.  The spec says nothing about a character outside '0'..'3', which no
      constructed \<open>QuadKey\<close> holds; the model reads the two low bits of its distance from
      '0'.\<close>
  "quadkey_to_tile k = (foldl qt_step (0, 0) k, length k)"

definition valid_geo :: "real \<Rightarrow> real \<Rightarrow> bool" where
  \<comment> \<open>Modelled from the spec: \<open>tile_system.valid_geo\<close> is imported by the source but its
      module is not part of the sources at hand.  Spec 4.1: true iff \<open>lat\<close> is in [-90, 90]
      and \<open>lon\<close> is in [-180, 180].\<close>
  "valid_geo lat lon = (- 90 \<le> lat \<and> lat \<le> 90 \<and> - 180 \<le> lon \<and> lon \<le> 180)"

definition pixel_to_tile :: "pixel \<Rightarrow> tile" where
  \<comment> \<open>Modelled from the spec: \<open>TileSystem.pixel_to_tile\<close> is called by the source but the
      module \<open>tile_system\<close> is not part of the sources at hand.  Spec 4.1: each pixel
      coordinate is divided by 256, as integers.\<close>
  "pixel_to_tile p = (fst p div 256, snd p div 256)"

section \<open>The class \<open>QuadKey\<close>\<close>

definition QuadKey_init :: "string \<Rightarrow> error + QuadKey" where
  \<comment> \<open>\<open>QuadKey.__init__\<close>, lines 9-15, under its decorator.\<close>
  "QuadKey_init k = precondition InvalidKey (valid_key k) (Inr \<lparr>key = k, level = length k\<rparr>)"

fun mapM :: "('a \<Rightarrow> error + 'b) \<Rightarrow> 'a list \<Rightarrow> error + 'b list" where
  \<comment> \<open>A list comprehension \<open>[f(x) for x in xs]\<close> whose body can raise: the first
      exception ends it.\<close>
  "mapM f [] = Inr []"
| "mapM f (x # xs) =
     (case f x of
        Inl e \<Rightarrow> Inl e
      | Inr y \<Rightarrow> (case mapM f xs of Inl e \<Rightarrow> Inl e | Inr ys \<Rightarrow> Inr (y # ys)))"

fun str :: "nat \<Rightarrow> string" where
  \<comment> \<open>Python's \<open>str\<close> on a non-negative integer: its decimal digits.\<close>
  "str n = (if n < 10 then [digit_char n] else str (n div 10) @ [digit_char (n mod 10)])"

declare str.simps [simp del]

definition children :: "QuadKey \<Rightarrow> error + QuadKey list" where
  \<comment> \<open>\<open>QuadKey.children\<close>, lines 17-20.\<close>
  "children self =
     (if level self \<ge> 23 then Inr []
      else mapM (\<lambda>k. QuadKey_init (key self @ str k)) [0, 1, 2, 3])"

definition parent :: "QuadKey \<Rightarrow> error + QuadKey" where
  \<comment> \<open>\<open>QuadKey.parent\<close>, lines 22-23; the slice \<open>key[:-1]\<close> drops the last character
      and is the empty string on a string of length at most one.\<close>
  "parent self = QuadKey_init (butlast (key self))"

definition nearby :: "QuadKey \<Rightarrow> string list" where
  \<comment> \<open>\<open>QuadKey.nearby\<close>, lines 25-31.  The source builds a Python \<open>set\<close> of tiles and
      iterates over it; the iteration order of a set is not specified, and \<open>remdups\<close>
      fixes one of the possible orders.  The elements are the strings returned by
      \<open>tile_to_quadkey\<close>, not \<open>QuadKey\<close> objects.\<close>
  "nearby self =
     (let (tile, lvl) = quadkey_to_tile (key self);
          perms = [(-1, -1), (-1, 0), (-1, 1), (0, -1), (0, 1), (1, -1), (1, 0), (1, 1)];
          tiles = remdups (map (\<lambda>perm. (\<bar>fst tile + fst perm\<bar>, \<bar>snd tile + snd perm\<bar>)) perms)
      in map (\<lambda>tile. tile_to_quadkey tile (int lvl)) tiles)"

definition is_ancestor :: "QuadKey \<Rightarrow> QuadKey \<Rightarrow> int option" where
  \<comment> \<open>\<open>QuadKey.is_ancestor\<close>, lines 33-41; \<open>None\<close> is Python's \<open>None\<close>.  The slice
      \<open>key[:n]\<close> is \<open>take n\<close> and never raises.\<close>
  "is_ancestor self node =
     (if level self \<le> level node \<or> take (length (key node)) (key self) \<noteq> key node then None
      else Some (int (level self) - int (level node)))"

definition is_descendent :: "QuadKey \<Rightarrow> QuadKey \<Rightarrow> int option" where
  \<comment> \<open>\<open>QuadKey.is_descendent\<close>, lines 43-49.\<close>
  "is_descendent self node = is_ancestor node self"

definition to_tile :: "QuadKey \<Rightarrow> tile \<times> nat" where
  \<comment> \<open>\<open>QuadKey.to_tile\<close>, lines 96-97.\<close>
  "to_tile self = quadkey_to_tile (key self)"

definition QuadKey_eq :: "QuadKey \<Rightarrow> QuadKey \<Rightarrow> bool" where
  \<comment> \<open>\<open>QuadKey.__eq__\<close>, lines 106-107, between two \<open>QuadKey\<close> objects.\<close>
  "QuadKey_eq self other = (key self = key other)"

definition from_geo :: "pixel \<Rightarrow> geo \<Rightarrow> int \<Rightarrow> error + QuadKey" where
  \<comment> \<open>\<open>from_geo\<close>, lines 124-136, under its decorator, which unpacks \<open>geo\<close> into the two
      arguments of \<open>valid_geo\<close>.  The projection \<open>TileSystem.geo_to_pixel\<close> is not part of
      the sources at hand: the first argument \<open>pixel\<close> stands for the pixel that the call
      \<open>TileSystem.geo_to_pixel(geo, level)\<close> on line 133 returns.\<close>
  "from_geo pixel geo lvl =
     precondition InvalidCoordinate (valid_geo (fst geo) (snd geo))
       (let tile = pixel_to_tile pixel;
            key = tile_to_quadkey tile lvl
        in QuadKey_init key)"

definition from_tile :: "tile \<Rightarrow> int \<Rightarrow> error + QuadKey" where
  \<comment> \<open>\<open>from_tile\<close>, lines 138-139.\<close>
  "from_tile tile lvl = QuadKey_init (tile_to_quadkey tile lvl)"

definition from_str :: "string \<Rightarrow> error + QuadKey" where
  \<comment> \<open>\<open>from_str\<close>, lines 141-142.\<close>
  "from_str qk_str = QuadKey_init qk_str"

definition unwind :: "QuadKey \<Rightarrow> error + QuadKey list" where
  \<comment> \<open>\<open>QuadKey.unwind\<close>, lines 91-94: \<open>l\<close> runs over \<open>range(len(key))\<close> reversed.\<close>
  "unwind self =
     mapM (\<lambda>l. QuadKey_init (take (l + 1) (key self))) (rev [0 ..< length (key self)])"

subsection \<open>The generator \<open>xdifference\<close>\<close>

text \<open>
  The two \<open>while\<close> loops of \<open>xdifference\<close> (lines 78-84).  The loop variable \<open>cur\<close> is
  passed as an argument; the four corner variables \<open>se\<close>, \<open>sw\<close>, \<open>ne\<close>, \<open>nw\<close> are
  \<open>None\<close> or a tile, and a two-element list is true in a condition, so \<open>if sw\<close> is
  \<open>sw \<noteq> None\<close>.  Subscripting \<open>None\<close> raises \<open>TypeError\<close>.  The result is the sequence
  of the values the generator yields, or the exception that ends it; a loop that does not
  end has no result (\<open>None\<close> of the outer option).
\<close>

definition inner_cond :: "tile option \<Rightarrow> tile option \<Rightarrow> tile \<Rightarrow> bool" where
  \<comment> \<open>line 80: \<open>(sw and cur[y] <= sw[y]) or (nw and cur[y] >= nw[y])\<close>\<close>
  "inner_cond sw nw cur =
     ((case sw of None \<Rightarrow> False | Some s \<Rightarrow> snd cur \<le> snd s) \<or>
      (case nw of None \<Rightarrow> False | Some n \<Rightarrow> snd cur \<ge> snd n))"

partial_function (option) xdiff_inner ::
  "tile option \<Rightarrow> tile option \<Rightarrow> nat \<Rightarrow> tile \<Rightarrow> (error + QuadKey list) option" where
  \<comment> \<open>lines 80-82; the value of \<open>cur[y]\<close> at the end of the loop is overwritten on line 84,
      so only the yielded values are returned.\<close>
  "xdiff_inner sw nw lvl cur =
     (if inner_cond sw nw cur then
        (case from_tile cur (int lvl) of
           Inl e \<Rightarrow> Some (Inl e)
         | Inr qk \<Rightarrow>
             Option.bind
               (xdiff_inner sw nw lvl (fst cur, snd cur + (if sw \<noteq> None then 1 else - 1)))
               (\<lambda>r. Some (case r of Inl e \<Rightarrow> Inl e | Inr qks \<Rightarrow> Inr (qk # qks))))
      else Some (Inr []))"

declare xdiff_inner.simps [code]

definition corner_x :: "tile option \<Rightarrow> tile option \<Rightarrow> error + int" where
  \<comment> \<open>line 79: \<open>sw[x] if sw else nw[x]\<close>\<close>
  "corner_x sw nw =
     (case sw of Some s \<Rightarrow> Inr (fst s)
      | None \<Rightarrow> (case nw of Some n \<Rightarrow> Inr (fst n) | None \<Rightarrow> Inl TypeError))"

definition corner_y :: "tile option \<Rightarrow> tile option \<Rightarrow> error + int" where
  \<comment> \<open>line 84: \<open>ne[y] if ne else se[y]\<close>\<close>
  "corner_y ne se =
     (case ne of Some n \<Rightarrow> Inr (snd n)
      | None \<Rightarrow> (case se of Some s \<Rightarrow> Inr (snd s) | None \<Rightarrow> Inl TypeError))"

partial_function (option) xdiff_outer ::
  "tile option \<Rightarrow> tile option \<Rightarrow> tile option \<Rightarrow> tile option \<Rightarrow> nat \<Rightarrow> tile \<Rightarrow>
     (error + QuadKey list) option" where
  \<comment> \<open>lines 79-84\<close>
  "xdiff_outer ne se sw nw lvl cur =
     (case corner_x sw nw of
        Inl e \<Rightarrow> Some (Inl e)
      | Inr bound \<Rightarrow>
          if fst cur \<ge> bound then
            Option.bind (xdiff_inner sw nw lvl cur)
              (\<lambda>r. case r of
                 Inl e \<Rightarrow> Some (Inl e)
               | Inr qks \<Rightarrow>
                   (case corner_y ne se of
                      Inl e \<Rightarrow> Some (Inl e)
                    | Inr y0 \<Rightarrow>
                        Option.bind (xdiff_outer ne se sw nw lvl (fst cur - 1, y0))
                          (\<lambda>r'. Some (case r' of Inl e \<Rightarrow> Inl e
                                       | Inr qks' \<Rightarrow> Inr (qks @ qks')))))
          else Some (Inr []))"

declare xdiff_outer.simps [code]

definition corners :: "tile \<Rightarrow> tile \<Rightarrow> tile option \<times> tile option \<times> tile option \<times> tile option" where
  \<comment> \<open>lines 69-77: the tuple \<open>(se, sw, ne, nw)\<close> after the \<open>if\<close>/\<open>elif\<close> chain.\<close>
  "corners self_tile to_tile' =
     (if fst self_tile \<ge> fst to_tile' \<and> snd self_tile \<le> snd to_tile'
        then (None, Some to_tile', Some self_tile, None)
      else if fst self_tile \<le> fst to_tile' \<and> snd self_tile \<ge> snd to_tile'
        then (None, Some self_tile, Some to_tile', None)
      else if fst self_tile \<le> fst to_tile' \<and> snd self_tile \<le> snd to_tile'
        then (Some to_tile', None, None, Some self_tile)
      else if fst self_tile \<ge> fst to_tile' \<and> snd self_tile \<ge> snd to_tile'
        then (Some self_tile, None, None, Some to_tile')
      else (None, None, None, None))"

definition xdifference :: "QuadKey \<Rightarrow> QuadKey \<Rightarrow> (error + QuadKey list) option" where
  \<comment> \<open>\<open>QuadKey.xdifference\<close>, lines 58-84, run to exhaustion.  The generator's body runs at
      the first \<open>next\<close>, so the \<open>assert\<close> fails when the consumer starts to iterate.\<close>
  "xdifference first second =
     (if level first \<noteq> level second then Some (Inl AssertionError)
      else
        let self_tile = fst (to_tile first);
            to_tile' = fst (to_tile second);
            (se, sw, ne, nw) = corners self_tile to_tile'
        in (case (case ne of Some n \<Rightarrow> Inr n
                  | None \<Rightarrow> (case se of Some s \<Rightarrow> Inr s | None \<Rightarrow> Inl TypeError)) of
              Inl e \<Rightarrow> Some (Inl e)
            | Inr cur \<Rightarrow> xdiff_outer ne se sw nw (level first) cur))"

definition difference :: "QuadKey \<Rightarrow> QuadKey \<Rightarrow> (error + QuadKey list) option" where
  \<comment> \<open>\<open>QuadKey.difference\<close>, lines 86-89: the list of everything the generator yields.\<close>
  "difference self to = xdifference self to"

section \<open>Notions used in the statements\<close>

definition digits :: "char set" where
  \<comment> \<open>The characters a key may hold.\<close>
  "digits = {CHR ''0'', CHR ''1'', CHR ''2'', CHR ''3''}"

definition grid :: "nat \<Rightarrow> int list \<Rightarrow> int list \<Rightarrow> QuadKey list" where
  \<comment> \<open>The QuadKeys of the tiles \<open>(x, y)\<close> at level \<open>L\<close>, for \<open>x\<close> in \<open>xs\<close> and, within each
      \<open>x\<close>, \<open>y\<close> in \<open>ys\<close>: the sequence the enumeration of a rectangle is compared with.\<close>
  "grid L xs ys =
     concat (map (\<lambda>x. map (\<lambda>y. \<lparr>key = tile_to_quadkey (x, y) (int L), level = L\<rparr>) ys) xs)"

section \<open>Construction from a string\<close>

lemma valid_key_iff:
  "valid_key s \<longleftrightarrow>
     s \<noteq> [] \<and> length s \<le> 23 \<and> set s \<subseteq> {CHR ''0'', CHR ''1'', CHR ''2'', CHR ''3''}"
proof -
  have a: "(1 \<le> length s) = (s \<noteq> [])" by (cases s) simp_all
  show ?thesis
    unfolding valid_key_def list_all_iff a by blast
qed

lemma QuadKey_init_valid:
  "valid_key s \<Longrightarrow> QuadKey_init s = Inr \<lparr>key = s, level = length s\<rparr>"
  by (simp add: QuadKey_init_def precondition_def)

lemma QuadKey_init_invalid:
  "\<not> valid_key s \<Longrightarrow> QuadKey_init s = Inl InvalidKey"
  by (simp add: QuadKey_init_def precondition_def)

lemma QuadKey_init_Inr_iff:
  "QuadKey_init s = Inr q \<longleftrightarrow> valid_key s \<and> q = \<lparr>key = s, level = length s\<rparr>"
  by (auto simp add: QuadKey_init_def precondition_def)

text \<open>
  C7.  Constructing a QuadKey from a string \<open>s\<close>, by \<open>QuadKey(s)\<close> or by \<open>from_str(s)\<close>,
  fails with \<open>InvalidKey\<close> exactly when \<open>s\<close> is empty, longer than 23 characters, or has a
  character outside '0'..'3'; for every other \<open>s\<close> it succeeds and the result has
  \<open>key = s\<close> and \<open>level = len(s)\<close>.
\<close>

theorem QuadKey_init_InvalidKey_iff:
  "(QuadKey_init s = Inl InvalidKey \<longleftrightarrow>
      s = [] \<or> 23 < length s \<or> (\<exists>c \<in> set s. c \<notin> {CHR ''0'', CHR ''1'', CHR ''2'', CHR ''3''})) \<and>
   (QuadKey_init s \<noteq> Inl InvalidKey \<longrightarrow>
      (\<exists>q. QuadKey_init s = Inr q \<and> key q = s \<and> level q = length s)) \<and>
   from_str s = QuadKey_init s"
proof -
  have b: "(length s \<le> 23) = (\<not> 23 < length s)" by arith
  have v: "valid_key s \<longleftrightarrow>
      \<not> (s = [] \<or> 23 < length s \<or> (\<exists>c \<in> set s. c \<notin> {CHR ''0'', CHR ''1'', CHR ''2'', CHR ''3''}))"
    unfolding valid_key_iff b by blast
  show ?thesis
  proof (cases "valid_key s")
    case True
    then have "QuadKey_init s = Inr \<lparr>key = s, level = length s\<rparr>"
      by (rule QuadKey_init_valid)
    then show ?thesis
      using True unfolding v by (simp add: from_str_def)
  next
    case False
    then have "QuadKey_init s = Inl InvalidKey"
      by (rule QuadKey_init_invalid)
    then show ?thesis
      using False unfolding v by (simp add: from_str_def)
  qed
qed

theorem QuadKey_init_InvalidKey_iff_witness:
  "QuadKey_init ''0123'' = Inr \<lparr>key = ''0123'', level = 4\<rparr> \<and>
   from_str ''0123'' = Inr \<lparr>key = ''0123'', level = 4\<rparr> \<and>
   QuadKey_init ''0124'' = Inl InvalidKey \<and>
   QuadKey_init [] = Inl InvalidKey \<and>
   QuadKey_init ''000000000011111111112222'' = Inl InvalidKey"
proof -
  have a: "QuadKey_init ''0123'' \<noteq> Inl InvalidKey"
    using QuadKey_init_InvalidKey_iff [of "''0123''"] by simp
  have b: "\<exists>q. QuadKey_init ''0123'' = Inr q \<and> key q = ''0123'' \<and> level q = length ''0123''"
    using QuadKey_init_InvalidKey_iff [of "''0123''"] a by blast
  have c: "QuadKey_init ''0123'' = Inr \<lparr>key = ''0123'', level = 4\<rparr>"
    using b by auto
  have d: "from_str ''0123'' = QuadKey_init ''0123''"
    using QuadKey_init_InvalidKey_iff [of "''0123''"] by blast
  have e: "QuadKey_init ''0124'' = Inl InvalidKey"
    using QuadKey_init_InvalidKey_iff [of "''0124''"] by simp
  have f: "QuadKey_init [] = Inl InvalidKey"
    using QuadKey_init_InvalidKey_iff [of "[]"] by simp
  have g: "QuadKey_init ''000000000011111111112222'' = Inl InvalidKey"
    using QuadKey_init_InvalidKey_iff [of "''000000000011111111112222''"] by simp
  show ?thesis using c d e f g by simp
qed

section \<open>Ancestors and descendants\<close>

lemma take_eq_iff_prefix: "take (length xs) ys = xs \<longleftrightarrow> prefix xs ys"
proof
  assume "take (length xs) ys = xs"
  then have "ys = xs @ drop (length xs) ys"
    by (metis append_take_drop_id)
  then show "prefix xs ys"
    by (metis prefixI)
next
  assume "prefix xs ys"
  then show "take (length xs) ys = xs"
    by (auto simp add: prefix_def)
qed

text \<open>
  C3.  For two QuadKeys \<open>a\<close> and \<open>b\<close>, \<open>a.is_ancestor(b)\<close> returns the integer
  \<open>a.level - b.level\<close> if the key of \<open>b\<close> is a strict prefix of the key of \<open>a\<close> and
  \<open>a.level > b.level\<close>, and \<open>None\<close> otherwise; it has no failing path (the model has no
  error result).  \<open>a.is_descendent(b)\<close> is \<open>b.is_ancestor(a)\<close>.
\<close>

theorem is_ancestor_strict_prefix:
  assumes "QuadKey_init s = Inr a" and "QuadKey_init t = Inr b"
  shows "is_ancestor a b =
           (if strict_prefix (key b) (key a) \<and> level a > level b
            then Some (int (level a) - int (level b)) else None) \<and>
         is_descendent a b = is_ancestor b a"
proof -
  from assms have la: "level a = length (key a)" and lb: "level b = length (key b)"
    by (auto simp add: QuadKey_init_Inr_iff)
  have "strict_prefix (key b) (key a) \<and> level a > level b \<longleftrightarrow>
        \<not> (level a \<le> level b \<or> take (length (key b)) (key a) \<noteq> key b)"
    unfolding take_eq_iff_prefix strict_prefix_def la lb by auto
  then show ?thesis
    unfolding is_descendent_def is_ancestor_def by simp
qed

theorem is_ancestor_strict_prefix_witness:
  "QuadKey_init ''0000'' = Inr \<lparr>key = ''0000'', level = 4\<rparr> \<and>
   QuadKey_init ''0'' = Inr \<lparr>key = ''0'', level = 1\<rparr> \<and>
   is_ancestor \<lparr>key = ''0000'', level = 4\<rparr> \<lparr>key = ''0'', level = 1\<rparr> = Some 3 \<and>
   is_descendent \<lparr>key = ''0000'', level = 4\<rparr> \<lparr>key = ''0'', level = 1\<rparr> =
     is_ancestor \<lparr>key = ''0'', level = 1\<rparr> \<lparr>key = ''0000'', level = 4\<rparr>"
proof -
  have a: "QuadKey_init ''0000'' = Inr \<lparr>key = ''0000'', level = 4\<rparr>"
    by (simp add: QuadKey_init_def precondition_def valid_key_def)
  have b: "QuadKey_init ''0'' = Inr \<lparr>key = ''0'', level = 1\<rparr>"
    by (simp add: QuadKey_init_def precondition_def valid_key_def)
  show ?thesis
    using is_ancestor_strict_prefix [OF a b] a b by simp
qed

text \<open>
  C4, as the code computes it.  With \<open>a = QuadKey("12030")\<close> and \<open>b = QuadKey("120")\<close>, both
  constructions succeed, \<open>a.is_ancestor(b)\<close> returns 2 (the key of \<open>b\<close> is a strict prefix of
  the key of \<open>a\<close>) and \<open>a.is_descendent(b)\<close>, which is \<open>b.is_ancestor(a)\<close>, returns \<open>None\<close>.
\<close>

theorem is_ancestor_12030_120:
  "QuadKey_init ''12030'' = Inr \<lparr>key = ''12030'', level = 5\<rparr> \<and>
   QuadKey_init ''120'' = Inr \<lparr>key = ''120'', level = 3\<rparr> \<and>
   is_ancestor \<lparr>key = ''12030'', level = 5\<rparr> \<lparr>key = ''120'', level = 3\<rparr> = Some 2 \<and>
   is_descendent \<lparr>key = ''12030'', level = 5\<rparr> \<lparr>key = ''120'', level = 3\<rparr> = None"
  by (simp add: QuadKey_init_def precondition_def valid_key_def is_ancestor_def
      is_descendent_def)

theorem is_ancestor_12030_120_witness:
  "is_ancestor \<lparr>key = ''12030'', level = 5\<rparr> \<lparr>key = ''120'', level = 3\<rparr> = Some 2 \<and>
   is_ancestor \<lparr>key = ''120'', level = 3\<rparr> \<lparr>key = ''12030'', level = 5\<rparr> = None"
  using is_ancestor_12030_120 by (simp add: is_descendent_def)

text \<open>
  C4 as stated (\<open>a.is_ancestor(b)\<close> is \<open>None\<close> and \<open>a.is_descendent(b)\<close> is 2) is false: the
  two results are the other way round.
\<close>

theorem is_ancestor_12030_120_counterexample:
  "\<not> (is_ancestor \<lparr>key = ''12030'', level = 5\<rparr> \<lparr>key = ''120'', level = 3\<rparr> = None \<and>
      is_descendent \<lparr>key = ''12030'', level = 5\<rparr> \<lparr>key = ''120'', level = 3\<rparr> = Some 2)"
  by (simp add: is_ancestor_def is_descendent_def)

section \<open>Difference between levels\<close>

text \<open>
  C8.  For two QuadKeys \<open>a\<close> and \<open>b\<close> with \<open>a.level \<noteq> b.level\<close>, \<open>a.difference(b)\<close> does not
  return a list: the assertion on line 66 fails, and the call ends with \<open>AssertionError\<close>.
\<close>

theorem difference_level_mismatch:
  "level a \<noteq> level b \<Longrightarrow> difference a b = Some (Inl AssertionError)"
  by (simp add: difference_def xdifference_def)

theorem difference_level_mismatch_witness:
  "level \<lparr>key = ''21'', level = 2\<rparr> \<noteq> level \<lparr>key = ''1'', level = 1\<rparr> \<and>
   difference \<lparr>key = ''21'', level = 2\<rparr> \<lparr>key = ''1'', level = 1\<rparr> = Some (Inl AssertionError)"
proof -
  have h: "level \<lparr>key = ''21'', level = 2\<rparr> \<noteq> level \<lparr>key = ''1'', level = 1\<rparr>" by simp
  show ?thesis
    using h difference_level_mismatch [OF h] by simp
qed

section \<open>Lists of constructed QuadKeys\<close>

lemma mapM_Inr:
  "(\<And>x. x \<in> set xs \<Longrightarrow> f x = Inr (g x)) \<Longrightarrow> mapM f xs = Inr (map g xs)"
  by (induction xs) simp_all

lemma valid_key_take:
  assumes "valid_key s" and "0 < n"
  shows "valid_key (take n s)"
proof -
  from assms have "take n s \<noteq> []" and "length (take n s) \<le> 23"
    and "set (take n s) \<subseteq> set s"
    by (auto simp add: valid_key_iff set_take_subset)
  with assms(1) show ?thesis
    unfolding valid_key_iff by blast
qed

lemma valid_key_snoc:
  assumes "valid_key s" and "length s < 23"
    and "d \<in> {CHR ''0'', CHR ''1'', CHR ''2'', CHR ''3''}"
  shows "valid_key (s @ [d])"
proof -
  from assms(1) have "set s \<subseteq> {CHR ''0'', CHR ''1'', CHR ''2'', CHR ''3''}"
    unfolding valid_key_iff by blast
  with assms(3) have "set (s @ [d]) \<subseteq> {CHR ''0'', CHR ''1'', CHR ''2'', CHR ''3''}"
    by simp
  moreover from assms(2) have "s @ [d] \<noteq> []" and "length (s @ [d]) \<le> 23"
    by simp_all
  ultimately show ?thesis
    unfolding valid_key_iff by blast
qed

lemma str_digits:
  "str 0 = ''0''" "str (Suc 0) = ''1''" "str 1 = ''1''" "str 2 = ''2''" "str 3 = ''3''"
  by (simp_all add: str.simps digit_char_def)

section \<open>Unwinding a key\<close>

text \<open>
  C10.  For a valid QuadKey \<open>k\<close>, \<open>k.unwind()\<close> returns \<open>k\<close> itself followed by the QuadKeys
  of the proper prefixes of its key, in strictly decreasing length down to length 1;
  and \<open>QuadKey("123").unwind()\<close> is \<open>[QuadKey("123"), QuadKey("12"), QuadKey("1")]\<close>.
\<close>

theorem unwind_prefixes:
  "(QuadKey_init s = Inr k \<longrightarrow>
      unwind k =
        Inr (k # map (\<lambda>n. \<lparr>key = take n (key k), level = n\<rparr>) (rev [1 ..< length (key k)]))) \<and>
   QuadKey_init ''123'' = Inr \<lparr>key = ''123'', level = 3\<rparr> \<and>
   unwind \<lparr>key = ''123'', level = 3\<rparr> =
     Inr [\<lparr>key = ''123'', level = 3\<rparr>, \<lparr>key = ''12'', level = 2\<rparr>, \<lparr>key = ''1'', level = 1\<rparr>]"
proof -
  have gen: "unwind k =
      Inr (k # map (\<lambda>n. \<lparr>key = take n (key k), level = n\<rparr>) (rev [1 ..< length (key k)]))"
    if init: "QuadKey_init s = Inr k" for s k
  proof -
    from init have v: "valid_key s" and k: "k = \<lparr>key = s, level = length s\<rparr>"
      by (simp_all add: QuadKey_init_Inr_iff)
    from v have ne: "s \<noteq> []"
      by (simp add: valid_key_iff)
    have each: "QuadKey_init (take (l + 1) s) = Inr \<lparr>key = take (l + 1) s, level = l + 1\<rparr>"
      if "l \<in> set (rev [0 ..< length s])" for l
    proof -
      from that have "l + 1 \<le> length s" by simp
      then have "length (take (l + 1) s) = l + 1" by simp
      moreover have "valid_key (take (l + 1) s)"
        using v by (rule valid_key_take) simp
      ultimately show ?thesis
        using QuadKey_init_valid [of "take (l + 1) s"] by simp
    qed
    have "mapM (\<lambda>l. QuadKey_init (take (l + 1) s)) (rev [0 ..< length s]) =
        Inr (map (\<lambda>l. \<lparr>key = take (l + 1) s, level = l + 1\<rparr>) (rev [0 ..< length s]))"
      by (rule mapM_Inr) (rule each)
    then have "unwind k =
        Inr (map (\<lambda>l. \<lparr>key = take (l + 1) s, level = l + 1\<rparr>) (rev [0 ..< length s]))"
      by (simp add: unwind_def k)
    also have "map (\<lambda>l. \<lparr>key = take (l + 1) s, level = l + 1\<rparr>) (rev [0 ..< length s]) =
        map (\<lambda>n. \<lparr>key = take n s, level = n\<rparr>) (rev (map Suc [0 ..< length s]))"
      by (simp add: rev_map comp_def)
    also have "map Suc [0 ..< length s] = [1 ..< Suc (length s)]"
      by (simp add: map_Suc_upt)
    also have "[1 ..< Suc (length s)] = [1 ..< length s] @ [length s]"
      using ne by (simp add: Suc_leI)
    finally show ?thesis
      by (simp add: k)
  qed
  have i: "QuadKey_init ''123'' = Inr \<lparr>key = ''123'', level = 3\<rparr>"
    by (simp add: QuadKey_init_def precondition_def valid_key_def)
  have "unwind \<lparr>key = ''123'', level = 3\<rparr> =
     Inr [\<lparr>key = ''123'', level = 3\<rparr>, \<lparr>key = ''12'', level = 2\<rparr>, \<lparr>key = ''1'', level = 1\<rparr>]"
    by (simp add: unwind_def QuadKey_init_def precondition_def valid_key_def upt_rec)
  with gen i show ?thesis
    by blast
qed

theorem unwind_prefixes_witness:
  "QuadKey_init ''0312'' = Inr \<lparr>key = ''0312'', level = 4\<rparr> \<and>
   unwind \<lparr>key = ''0312'', level = 4\<rparr> =
     Inr [\<lparr>key = ''0312'', level = 4\<rparr>, \<lparr>key = ''031'', level = 3\<rparr>,
          \<lparr>key = ''03'', level = 2\<rparr>, \<lparr>key = ''0'', level = 1\<rparr>]"
proof -
  have i: "QuadKey_init ''0312'' = Inr \<lparr>key = ''0312'', level = 4\<rparr>"
    by (simp add: QuadKey_init_def precondition_def valid_key_def)
  have u: "unwind \<lparr>key = ''0312'', level = 4\<rparr> =
      Inr (\<lparr>key = ''0312'', level = 4\<rparr> #
           map (\<lambda>n. \<lparr>key = take n (key \<lparr>key = ''0312'', level = 4\<rparr>), level = n\<rparr>)
             (rev [1 ..< length (key \<lparr>key = ''0312'', level = 4\<rparr>)]))"
    using unwind_prefixes [of "''0312''" "\<lparr>key = ''0312'', level = 4\<rparr>"] i by blast
  have "rev [1 ..< length (key \<lparr>key = ''0312'', level = 4\<rparr>)] = [3, 2, 1]"
    by (simp add: upt_rec)
  with u i show ?thesis
    by simp
qed

section \<open>Children and parent\<close>

text \<open>
  C6.  For a valid QuadKey \<open>k\<close> of level below 23, \<open>k.children()\<close> returns exactly four
  QuadKeys, pairwise different, whose keys are the key of \<open>k\<close> with '0', '1', '2', '3'
  appended, and \<open>c.parent() == k\<close> for each child \<open>c\<close>; for a valid QuadKey of level 23 or
  more, \<open>k.children()\<close> returns the empty list.
\<close>

theorem children_parent:
  assumes "QuadKey_init s = Inr k"
  shows "(level k < 23 \<longrightarrow>
           (\<exists>cs. children k = Inr cs \<and> length cs = 4 \<and> distinct (map key cs) \<and>
                 map key cs = [key k @ ''0'', key k @ ''1'', key k @ ''2'', key k @ ''3''] \<and>
                 (\<forall>c \<in> set cs. \<exists>p. parent c = Inr p \<and> QuadKey_eq p k))) \<and>
         (level k \<ge> 23 \<longrightarrow> children k = Inr [])"
proof -
  from assms have v: "valid_key s" and k: "k = \<lparr>key = s, level = length s\<rparr>"
    by (simp_all add: QuadKey_init_Inr_iff)
  have top: "children k = Inr []" if "level k \<ge> 23"
    using that by (simp add: children_def)
  have below: "\<exists>cs. children k = Inr cs \<and> length cs = 4 \<and> distinct (map key cs) \<and>
                 map key cs = [key k @ ''0'', key k @ ''1'', key k @ ''2'', key k @ ''3''] \<and>
                 (\<forall>c \<in> set cs. \<exists>p. parent c = Inr p \<and> QuadKey_eq p k)"
    if lt: "level k < 23"
  proof -
    from lt have len: "length s < 23" by (simp add: k)
    have child: "QuadKey_init (s @ [d]) = Inr \<lparr>key = s @ [d], level = Suc (length s)\<rparr>"
      if "d \<in> {CHR ''0'', CHR ''1'', CHR ''2'', CHR ''3''}" for d
      using QuadKey_init_valid [OF valid_key_snoc [OF v len that]] by simp
    let ?c = "\<lambda>d. \<lparr>key = s @ [d], level = Suc (length s)\<rparr>"
    have c: "children k = Inr [?c CHR ''0'', ?c CHR ''1'', ?c CHR ''2'', ?c CHR ''3'']"
      using lt by (simp add: children_def k str_digits child)
    have par: "parent (?c d) = Inr k" for d
      using assms by (simp add: parent_def k)
    show ?thesis
      unfolding c by (simp add: par QuadKey_eq_def k)
  qed
  from top below show ?thesis
    by blast
qed

theorem children_parent_witness:
  "QuadKey_init ''033'' = Inr \<lparr>key = ''033'', level = 3\<rparr> \<and>
   (\<exists>cs. children \<lparr>key = ''033'', level = 3\<rparr> = Inr cs \<and> length cs = 4 \<and>
      distinct (map key cs) \<and> map key cs = [''0330'', ''0331'', ''0332'', ''0333''] \<and>
      (\<forall>c \<in> set cs. \<exists>p. parent c = Inr p \<and> QuadKey_eq p \<lparr>key = ''033'', level = 3\<rparr>)) \<and>
   QuadKey_init ''00000000001111111111222'' =
     Inr \<lparr>key = ''00000000001111111111222'', level = 23\<rparr> \<and>
   children \<lparr>key = ''00000000001111111111222'', level = 23\<rparr> = Inr []"
proof -
  have i: "QuadKey_init ''033'' = Inr \<lparr>key = ''033'', level = 3\<rparr>"
    by (simp add: QuadKey_init_def precondition_def valid_key_def)
  have j: "QuadKey_init ''00000000001111111111222'' =
     Inr \<lparr>key = ''00000000001111111111222'', level = 23\<rparr>"
    by (simp add: QuadKey_init_def precondition_def valid_key_def)
  have a: "\<exists>cs. children \<lparr>key = ''033'', level = 3\<rparr> = Inr cs \<and> length cs = 4 \<and>
      distinct (map key cs) \<and> map key cs = [''0330'', ''0331'', ''0332'', ''0333''] \<and>
      (\<forall>c \<in> set cs. \<exists>p. parent c = Inr p \<and> QuadKey_eq p \<lparr>key = ''033'', level = 3\<rparr>)"
    using children_parent [OF i] by simp
  have b: "children \<lparr>key = ''00000000001111111111222'', level = 23\<rparr> = Inr []"
    using children_parent [OF j] by simp
  from i j a b show ?thesis
    by blast
qed

section \<open>Tiles and keys\<close>

lemma qt_step_digit:
  "qt_step (x, y) (digit_char ((if bx then 1 else 0) + (if by then 2 else 0))) =
     (2 * x + of_bool bx, 2 * y + of_bool by)"
  by (cases bx; cases "by") (simp_all add: qt_step_def digit_of_def digit_char_def or_one_eq)

lemma digit_char_in_digits:
  "digit_char ((if bx then 1 else 0) + (if by then 2 else 0)) \<in> digits"
  by (cases bx; cases "by") (simp_all add: digit_char_def digits_def)

lemma digits_cases:
  assumes "c \<in> digits"
  obtains bx "by" where "c = digit_char ((if bx then 1 else 0) + (if by then 2 else 0))"
proof -
  from assms consider "c = CHR ''0''" | "c = CHR ''1''" | "c = CHR ''2''" | "c = CHR ''3''"
    unfolding digits_def by blast
  then show thesis
  proof cases
    case 1
    then show thesis using that [of False False] by (simp add: digit_char_def)
  next
    case 2
    then show thesis using that [of True False] by (simp add: digit_char_def)
  next
    case 3
    then show thesis using that [of False True] by (simp add: digit_char_def)
  next
    case 4
    then show thesis using that [of True True] by (simp add: digit_char_def)
  qed
qed

lemma length_tq_digits: "length (tq_digits tx ty n) = n"
  by (induction n) simp_all

lemma set_tq_digits: "set (tq_digits tx ty n) \<subseteq> digits"
  by (induction n) (simp_all add: digit_char_in_digits del: One_nat_def)

lemma valid_key_digits: "valid_key s \<longleftrightarrow> s \<noteq> [] \<and> length s \<le> 23 \<and> set s \<subseteq> digits"
  unfolding valid_key_iff digits_def ..

lemma valid_key_tile_to_quadkey:
  assumes "1 \<le> L" and "L \<le> 23"
  shows "valid_key (tile_to_quadkey t (int L))"
proof -
  let ?ds = "tq_digits (fst t) (snd t) L"
  have e: "tile_to_quadkey t (int L) = ?ds"
    by (simp add: tile_to_quadkey_def)
  have l: "length ?ds = L"
    by (rule length_tq_digits)
  with assms have "?ds \<noteq> []" and "length ?ds \<le> 23"
    by auto
  moreover have "set ?ds \<subseteq> digits"
    by (rule set_tq_digits)
  ultimately show ?thesis
    unfolding e valid_key_digits by blast
qed

lemma foldl_qt_step_tq_digits:
  "foldl qt_step (x0, y0) (tq_digits tx ty n) =
     (x0 * 2 ^ n + take_bit n tx, y0 * 2 ^ n + take_bit n ty)"
proof (induction n arbitrary: x0 y0)
  case 0
  show ?case by simp
next
  case (Suc n)
  have "foldl qt_step (x0, y0) (tq_digits tx ty (Suc n)) =
        foldl qt_step (2 * x0 + of_bool (bit tx n), 2 * y0 + of_bool (bit ty n)) (tq_digits tx ty n)"
    by (simp add: qt_step_digit del: One_nat_def)
  also have "\<dots> = ((2 * x0 + of_bool (bit tx n)) * 2 ^ n + take_bit n tx,
                   (2 * y0 + of_bool (bit ty n)) * 2 ^ n + take_bit n ty)"
    by (rule Suc.IH)
  also have "(2 * x0 + of_bool (bit tx n)) * 2 ^ n + take_bit n tx =
             x0 * 2 ^ Suc n + take_bit (Suc n) tx"
    by (simp add: take_bit_Suc_from_most algebra_simps)
  also have "(2 * y0 + of_bool (bit ty n)) * 2 ^ n + take_bit n ty =
             y0 * 2 ^ Suc n + take_bit (Suc n) ty"
    by (simp add: take_bit_Suc_from_most algebra_simps)
  finally show ?case .
qed

lemma quadkey_to_tile_tile_to_quadkey:
  assumes "0 \<le> x" "x < 2 ^ L" "0 \<le> y" "y < 2 ^ L"
  shows "quadkey_to_tile (tile_to_quadkey (x, y) (int L)) = ((x, y), L)"
  using assms
  by (simp add: quadkey_to_tile_def tile_to_quadkey_def foldl_qt_step_tq_digits
      length_tq_digits take_bit_int_eq_self)

lemma tq_digits_snoc:
  "tq_digits (2 * x + of_bool bx) (2 * y + of_bool by) (Suc n) =
     tq_digits x y n @ [digit_char ((if bx then 1 else 0) + (if by then 2 else 0))]"
proof (induction n)
  case 0
  show ?case by (simp add: bit_0 del: One_nat_def)
next
  case (Suc n)
  have "bit (2 * x + of_bool bx) (Suc n) = bit x n" "bit (2 * y + of_bool by) (Suc n) = bit y n"
    by (simp_all add: bit_Suc)
  then show ?case
    using Suc.IH by (simp del: One_nat_def)
qed

lemma tq_digits_foldl_qt_step:
  assumes "set s \<subseteq> digits"
  shows "tq_digits (fst (foldl qt_step (0, 0) s)) (snd (foldl qt_step (0, 0) s)) (length s) = s"
  using assms
proof (induction s rule: rev_induct)
  case Nil
  show ?case by simp
next
  case (snoc c s)
  then have c: "c \<in> digits" and s: "set s \<subseteq> digits"
    by simp_all
  from c obtain bx "by" where cd: "c = digit_char ((if bx then 1 else 0) + (if by then 2 else 0))"
    by (rule digits_cases)
  obtain X Y where XY: "foldl qt_step (0, 0) s = (X, Y)"
    by (cases "foldl qt_step (0, 0) s")
  with snoc.IH [OF s] have IH: "tq_digits X Y (length s) = s"
    by simp
  have "foldl qt_step (0, 0) (s @ [c]) = (2 * X + of_bool bx, 2 * Y + of_bool by)"
    by (simp add: XY cd qt_step_digit del: One_nat_def)
  then show ?case
    by (simp add: tq_digits_snoc IH cd del: One_nat_def tq_digits.simps)
qed

lemma foldl_qt_step_bounds:
  assumes "set s \<subseteq> digits"
  shows "0 \<le> fst (foldl qt_step (0, 0) s) \<and> fst (foldl qt_step (0, 0) s) < 2 ^ length s \<and>
         0 \<le> snd (foldl qt_step (0, 0) s) \<and> snd (foldl qt_step (0, 0) s) < 2 ^ length s"
proof -
  have "foldl qt_step (0, 0) s =
      (take_bit (length s) (fst (foldl qt_step (0, 0) s)),
       take_bit (length s) (snd (foldl qt_step (0, 0) s)))"
    using foldl_qt_step_tq_digits [of 0 0 "fst (foldl qt_step (0, 0) s)"
        "snd (foldl qt_step (0, 0) s)" "length s"]
      tq_digits_foldl_qt_step [OF assms] by simp
  then have "fst (foldl qt_step (0, 0) s) = take_bit (length s) (fst (foldl qt_step (0, 0) s))"
    and "snd (foldl qt_step (0, 0) s) = take_bit (length s) (snd (foldl qt_step (0, 0) s))"
    by (metis fst_conv, metis snd_conv)
  then show ?thesis
    by (metis take_bit_nonnegative take_bit_int_less_exp)
qed

lemma to_tile_bounds:
  assumes "QuadKey_init s = Inr k" and "to_tile k = ((x, y), L)"
  shows "L = level k \<and> 1 \<le> L \<and> L \<le> 23 \<and> 0 \<le> x \<and> x < 2 ^ L \<and> 0 \<le> y \<and> y < 2 ^ L"
proof -
  from assms(1) have v: "valid_key s" and k: "k = \<lparr>key = s, level = length s\<rparr>"
    by (simp_all add: QuadKey_init_Inr_iff)
  from v have d: "set s \<subseteq> digits" and l: "1 \<le> length s" "length s \<le> 23"
    by (simp_all add: valid_key_digits Suc_leI)
  from assms(2) have "foldl qt_step (0, 0) s = (x, y)" and "L = length s"
    by (simp_all add: to_tile_def quadkey_to_tile_def k)
  with foldl_qt_step_bounds [OF d] l show ?thesis
    by (simp add: k)
qed

lemma from_tile_valid:
  assumes "1 \<le> L" "L \<le> 23"
  shows "from_tile t (int L) = Inr \<lparr>key = tile_to_quadkey t (int L), level = L\<rparr>"
  using QuadKey_init_valid [OF valid_key_tile_to_quadkey [OF assms, of t]]
  by (simp add: from_tile_def tile_to_quadkey_def length_tq_digits)

section \<open>Round trip between tiles and keys\<close>

text \<open>
  C2.  For every level \<open>L\<close> in [1, 23] and every tile \<open>(x, y)\<close> with \<open>0 \<le> x, y < 2 ^ L\<close>,
  \<open>from_tile((x, y), L)\<close> succeeds and its \<open>to_tile()\<close> is \<open>((x, y), L)\<close>; and in the other
  direction, encoding the tile and level of a valid QuadKey gives the QuadKey back, so
  \<open>tile_to_quadkey\<close> and \<open>quadkey_to_tile\<close> are inverse to each other.
\<close>

theorem from_tile_to_tile:
  "(1 \<le> L \<and> L \<le> 23 \<and> 0 \<le> x \<and> x < 2 ^ L \<and> 0 \<le> y \<and> y < 2 ^ L \<longrightarrow>
      (\<exists>k. from_tile (x, y) (int L) = Inr k \<and> to_tile k = ((x, y), L))) \<and>
   (QuadKey_init s = Inr q \<longrightarrow>
      from_tile (fst (to_tile q)) (int (snd (to_tile q))) = Inr q)"
proof -
  have fwd: "\<exists>k. from_tile (x, y) (int L) = Inr k \<and> to_tile k = ((x, y), L)"
    if "1 \<le> L \<and> L \<le> 23 \<and> 0 \<le> x \<and> x < 2 ^ L \<and> 0 \<le> y \<and> y < 2 ^ L"
  proof -
    from that have "from_tile (x, y) (int L) =
        Inr \<lparr>key = tile_to_quadkey (x, y) (int L), level = L\<rparr>"
      by (simp add: from_tile_valid)
    moreover from that
    have "to_tile \<lparr>key = tile_to_quadkey (x, y) (int L), level = L\<rparr> = ((x, y), L)"
      by (simp add: to_tile_def quadkey_to_tile_tile_to_quadkey)
    ultimately show ?thesis
      by blast
  qed
  have bwd: "from_tile (fst (to_tile q)) (int (snd (to_tile q))) = Inr q"
    if init: "QuadKey_init s = Inr q"
  proof -
    from init have v: "valid_key s" and q: "q = \<lparr>key = s, level = length s\<rparr>"
      by (simp_all add: QuadKey_init_Inr_iff)
    from v have d: "set s \<subseteq> digits"
      by (simp add: valid_key_digits)
    have "tile_to_quadkey (fst (to_tile q)) (int (snd (to_tile q))) = s"
      using tq_digits_foldl_qt_step [OF d]
      by (simp add: to_tile_def quadkey_to_tile_def tile_to_quadkey_def q)
    then show ?thesis
      using init by (simp add: from_tile_def)
  qed
  from fwd bwd show ?thesis
    by blast
qed

theorem from_tile_to_tile_witness:
  "from_tile (3, 5) 3 = Inr \<lparr>key = ''213'', level = 3\<rparr> \<and>
   to_tile \<lparr>key = ''213'', level = 3\<rparr> = ((3, 5), 3) \<and>
   QuadKey_init ''213'' = Inr \<lparr>key = ''213'', level = 3\<rparr>"
proof -
  have i: "QuadKey_init ''213'' = Inr \<lparr>key = ''213'', level = 3\<rparr>"
    by (simp add: QuadKey_init_def precondition_def valid_key_def)
  have h: "1 \<le> (3::nat) \<and> (3::nat) \<le> 23 \<and> 0 \<le> (3::int) \<and> (3::int) < 2 ^ 3 \<and>
      0 \<le> (5::int) \<and> (5::int) < 2 ^ 3"
    by simp
  have "\<exists>k. from_tile (3, 5) (int 3) = Inr k \<and> to_tile k = ((3, 5), 3)"
    using from_tile_to_tile [of 3 3 5 "''213''" "\<lparr>key = ''213'', level = 3\<rparr>"] h by blast
  moreover have "from_tile (3, 5) (int 3) = Inr \<lparr>key = ''213'', level = 3\<rparr>"
    by (simp add: from_tile_def tile_to_quadkey_def QuadKey_init_def precondition_def
        valid_key_def digit_char_def eval_nat_numeral)
  ultimately show ?thesis
    using i by auto
qed

section \<open>Neighbours\<close>

lemma nearby_unfold:
  assumes "to_tile k = ((x, y), L)"
  shows "nearby k =
     map (\<lambda>t. tile_to_quadkey t (int L))
       (remdups (map (\<lambda>perm. (\<bar>x + fst perm\<bar>, \<bar>y + snd perm\<bar>))
          [(-1, -1), (-1, 0), (-1, 1), (0, -1), (0, 1), (1, -1), (1, 0), (1, 1)]))"
  using assms unfolding nearby_def to_tile_def by (simp add: Let_def)

lemma offsets_set:
  "set [(-1, -1), (-1, 0), (-1, 1), (0, -1), (0, 1), (1, -1), (1, 0), (1, 1 :: int)] =
     {-1, 0, 1 :: int} \<times> {-1, 0, 1} - {(0, 0)}"
  by auto

lemma take_bit_eq_close:
  fixes a b :: int
  assumes "take_bit L a = take_bit L b" and "\<bar>a - b\<bar> < 2 ^ L"
  shows "a = b"
proof (rule ccontr)
  assume "a \<noteq> b"
  then have nz: "a - b \<noteq> 0"
    by simp
  from assms(1) have "a mod 2 ^ L = b mod 2 ^ L"
    by (simp add: take_bit_eq_mod)
  then have "(2 ^ L :: int) dvd a - b"
    by (simp add: mod_eq_dvd_iff)
  with nz have "\<bar>2 ^ L :: int\<bar> \<le> \<bar>a - b\<bar>"
    by (rule dvd_imp_le_int)
  with assms(2) show False
    by simp
qed

lemma tile_to_quadkey_take_bit:
  assumes "tile_to_quadkey t (int L) = tile_to_quadkey u (int L)"
  shows "take_bit L (fst t) = take_bit L (fst u) \<and> take_bit L (snd t) = take_bit L (snd u)"
proof -
  from assms have "tq_digits (fst t) (snd t) L = tq_digits (fst u) (snd u) L"
    by (simp add: tile_to_quadkey_def)
  then have "foldl qt_step (0, 0) (tq_digits (fst t) (snd t) L) =
      foldl qt_step (0, 0) (tq_digits (fst u) (snd u) L)"
    by simp
  then show ?thesis
    unfolding foldl_qt_step_tq_digits by simp
qed

lemma tile_to_quadkey_inj_close:
  assumes "tile_to_quadkey t (int L) = tile_to_quadkey u (int L)"
    and "\<bar>fst t - fst u\<bar> < 2 ^ L" and "\<bar>snd t - snd u\<bar> < 2 ^ L"
  shows "t = u"
proof -
  from tile_to_quadkey_take_bit [OF assms(1)]
  have "take_bit L (fst t) = take_bit L (fst u)" and "take_bit L (snd t) = take_bit L (snd u)"
    by blast+
  with assms(2,3) have "fst t = fst u" and "snd t = snd u"
    by (blast intro: take_bit_eq_close)+
  then show ?thesis
    by (simp add: prod_eq_iff)
qed

lemma neighbour_coordinates_close:
  fixes x :: int
  assumes "0 \<le> x" and "dx \<in> {-1, 0, 1}" and "dx' \<in> {-1, 0, 1}"
    and "2 \<le> L \<or> x + 1 < 2 ^ L"
  shows "\<bar>\<bar>x + dx\<bar> - \<bar>x + dx'\<bar>\<bar> < 2 ^ L"
proof -
  from assms(1-3) have w: "\<bar>\<bar>x + dx\<bar> - \<bar>x + dx'\<bar>\<bar> \<le> 2"
    and r: "0 \<le> \<bar>x + dx\<bar>" "\<bar>x + dx\<bar> \<le> x + 1" "0 \<le> \<bar>x + dx'\<bar>" "\<bar>x + dx'\<bar> \<le> x + 1"
    by auto
  from assms(4) show ?thesis
  proof
    assume "2 \<le> L"
    then have "(2::int) ^ 2 \<le> 2 ^ L"
      by (intro power_increasing) simp_all
    with w show ?thesis
      by simp
  next
    assume "x + 1 < 2 ^ L"
    with r show ?thesis
      by linarith
  qed
qed

text \<open>
  C5, as the code computes it.  For a valid QuadKey \<open>k\<close> with tile \<open>(x, y)\<close> at level \<open>L\<close>,
  \<open>k.nearby()\<close> has at most 8 elements; every element is a valid key of the level of \<open>k\<close>
  (constructing a QuadKey from it succeeds, at that level); the elements are the keys of
  pairwise distinct tiles, which are exactly the tiles \<open>(|x+dx|, |y+dy|)\<close> over the 8
  non-zero offsets \<open>(dx, dy)\<close> in \<open>{-1,0,1} \<times> {-1,0,1}\<close>; and the elements themselves are
  pairwise distinct if \<open>L \<ge> 2\<close>, or if \<open>x + 1 < 2 ^ L\<close> and \<open>y + 1 < 2 ^ L\<close> (at level 1,
  the key "0").
\<close>

theorem nearby_tiles:
  assumes "QuadKey_init s = Inr k" and "to_tile k = ((x, y), L)"
  shows "length (nearby k) \<le> 8 \<and>
         (\<forall>e \<in> set (nearby k). QuadKey_init e = Inr \<lparr>key = e, level = level k\<rparr>) \<and>
         (\<exists>tiles. distinct tiles \<and>
            set tiles = (\<lambda>(dx, dy). (\<bar>x + dx\<bar>, \<bar>y + dy\<bar>)) ` ({-1, 0, 1} \<times> {-1, 0, 1} - {(0, 0)}) \<and>
            nearby k = map (\<lambda>t. tile_to_quadkey t (int L)) tiles) \<and>
         (2 \<le> L \<or> (x + 1 < 2 ^ L \<and> y + 1 < 2 ^ L) \<longrightarrow> distinct (nearby k))"
proof -
  define perms :: "(int \<times> int) list"
    where "perms = [(-1, -1), (-1, 0), (-1, 1), (0, -1), (0, 1), (1, -1), (1, 0), (1, 1)]"
  define tiles where "tiles = remdups (map (\<lambda>perm. (\<bar>x + fst perm\<bar>, \<bar>y + snd perm\<bar>)) perms)"
  let ?enc = "\<lambda>t. tile_to_quadkey t (int L)"
  from to_tile_bounds [OF assms]
  have L: "L = level k" "1 \<le> L" "L \<le> 23" and xy: "0 \<le> x" "x < 2 ^ L" "0 \<le> y" "y < 2 ^ L"
    by blast+
  have nb: "nearby k = map ?enc tiles"
    unfolding tiles_def perms_def using assms(2) by (rule nearby_unfold)
  have "length perms = 8"
    by (simp add: perms_def)
  moreover have "length tiles \<le> length (map (\<lambda>perm. (\<bar>x + fst perm\<bar>, \<bar>y + snd perm\<bar>)) perms)"
    unfolding tiles_def by (rule length_remdups_leq)
  ultimately have len: "length (nearby k) \<le> 8"
    unfolding nb by simp
  have elem: "QuadKey_init e = Inr \<lparr>key = e, level = level k\<rparr>" if "e \<in> set (nearby k)" for e
  proof -
    from that obtain t where e: "e = ?enc t"
      unfolding nb by auto
    have "length e = L"
      by (simp add: e tile_to_quadkey_def length_tq_digits)
    moreover have "valid_key e"
      unfolding e using L(2,3) by (rule valid_key_tile_to_quadkey)
    ultimately show ?thesis
      using QuadKey_init_valid [of e] L(1) by simp
  qed
  have "set perms = {-1, 0, 1} \<times> {-1, 0, 1} - {(0, 0)}"
    unfolding perms_def by (rule offsets_set)
  then have st: "set tiles =
      (\<lambda>(dx, dy). (\<bar>x + dx\<bar>, \<bar>y + dy\<bar>)) ` ({-1, 0, 1} \<times> {-1, 0, 1} - {(0, 0)})"
    unfolding tiles_def set_remdups set_map by (simp add: case_prod_beta)
  have dt: "distinct tiles"
    unfolding tiles_def by (rule distinct_remdups)
  have dist: "distinct (nearby k)" if room: "2 \<le> L \<or> (x + 1 < 2 ^ L \<and> y + 1 < 2 ^ L)"
  proof -
    from room have rx: "2 \<le> L \<or> x + 1 < 2 ^ L" and ry: "2 \<le> L \<or> y + 1 < 2 ^ L"
      by blast+
    have "inj_on ?enc (set tiles)"
    proof (rule inj_onI)
      fix t u
      assume t: "t \<in> set tiles" and u: "u \<in> set tiles" and e: "?enc t = ?enc u"
      from t obtain dx dy where t': "t = (\<bar>x + dx\<bar>, \<bar>y + dy\<bar>)"
        and d: "dx \<in> {-1, 0, 1}" "dy \<in> {-1, 0, 1}"
        unfolding st by auto
      from u obtain dx' dy' where u': "u = (\<bar>x + dx'\<bar>, \<bar>y + dy'\<bar>)"
        and d': "dx' \<in> {-1, 0, 1}" "dy' \<in> {-1, 0, 1}"
        unfolding st by auto
      have "\<bar>fst t - fst u\<bar> < 2 ^ L"
        unfolding t' u' fst_conv using xy(1) d(1) d'(1) rx by (rule neighbour_coordinates_close)
      moreover have "\<bar>snd t - snd u\<bar> < 2 ^ L"
        unfolding t' u' snd_conv using xy(3) d(2) d'(2) ry by (rule neighbour_coordinates_close)
      ultimately show "t = u"
        using e by (intro tile_to_quadkey_inj_close)
    qed
    with dt show ?thesis
      unfolding nb by (simp add: distinct_map)
  qed
  show ?thesis
  proof (intro conjI)
    show "length (nearby k) \<le> 8"
      by (rule len)
    show "\<forall>e \<in> set (nearby k). QuadKey_init e = Inr \<lparr>key = e, level = level k\<rparr>"
      by (intro ballI) (rule elem)
    show "\<exists>tiles. distinct tiles \<and>
            set tiles = (\<lambda>(dx, dy). (\<bar>x + dx\<bar>, \<bar>y + dy\<bar>)) ` ({-1, 0, 1} \<times> {-1, 0, 1} - {(0, 0)}) \<and>
            nearby k = map ?enc tiles"
      using dt st nb by (intro exI [of _ tiles] conjI)
    show "2 \<le> L \<or> (x + 1 < 2 ^ L \<and> y + 1 < 2 ^ L) \<longrightarrow> distinct (nearby k)"
      by (intro impI) (rule dist)
  qed
qed

theorem nearby_tiles_witness:
  "QuadKey_init ''33'' = Inr \<lparr>key = ''33'', level = 2\<rparr> \<and>
   to_tile \<lparr>key = ''33'', level = 2\<rparr> = ((3, 3), 2) \<and>
   length (nearby \<lparr>key = ''33'', level = 2\<rparr>) \<le> 8 \<and>
   list_all (\<lambda>e. QuadKey_init e = Inr \<lparr>key = e, level = 2\<rparr>)
     (nearby \<lparr>key = ''33'', level = 2\<rparr>) \<and>
   distinct (nearby \<lparr>key = ''33'', level = 2\<rparr>)"
proof -
  have i: "QuadKey_init ''33'' = Inr \<lparr>key = ''33'', level = 2\<rparr>"
    by (simp add: QuadKey_init_def precondition_def valid_key_def)
  have t: "to_tile \<lparr>key = ''33'', level = 2\<rparr> = ((3, 3), 2)"
    by (simp add: to_tile_def quadkey_to_tile_def qt_step_def digit_of_def or_one_eq)
  have h: "2 \<le> (2::nat) \<or> ((3::int) + 1 < 2 ^ 2 \<and> (3::int) + 1 < 2 ^ 2)"
    by simp
  show ?thesis
    using nearby_tiles [OF i t] i t h by (simp add: list_all_iff)
qed

text \<open>
  C5 as stated is false in its last part: at the QuadKey "1" (tile \<open>(1, 0)\<close> at level 1) the
  neighbour tiles \<open>(2, 0)\<close> and \<open>(0, 0)\<close> are different tiles with the same key, so the list
  returned by \<open>nearby\<close> holds a key twice.
\<close>

theorem nearby_distinct_counterexample:
  "QuadKey_init ''1'' = Inr \<lparr>key = ''1'', level = 1\<rparr> \<and>
   \<not> distinct (nearby \<lparr>key = ''1'', level = 1\<rparr>)"
proof -
  have i: "QuadKey_init ''1'' = Inr \<lparr>key = ''1'', level = 1\<rparr>"
    by (simp add: QuadKey_init_def precondition_def valid_key_def)
  have t: "to_tile \<lparr>key = ''1'', level = 1\<rparr> = ((1, 0), 1)"
    by (simp add: to_tile_def quadkey_to_tile_def qt_step_def digit_of_def)
  have "tile_to_quadkey (2, 0) (int 1) = ''0''" "tile_to_quadkey (0, 0) (int 1) = ''0''"
    by (simp_all add: tile_to_quadkey_def digit_char_def bit_0)
  then have "\<not> distinct (nearby \<lparr>key = ''1'', level = 1\<rparr>)"
    unfolding nearby_unfold [OF t] by simp
  with i show ?thesis
    by simp
qed

section \<open>The rectangle between two QuadKeys\<close>

lemma grid_Nil: "grid L [] ys = []"
  by (simp add: grid_def)

lemma grid_Cons:
  "grid L (x # xs) ys =
     map (\<lambda>y. \<lparr>key = tile_to_quadkey (x, y) (int L), level = L\<rparr>) ys @ grid L xs ys"
  by (simp add: grid_def)

lemma length_grid: "length (grid L xs ys) = length xs * length ys"
  by (induction xs) (simp_all add: grid_Nil grid_Cons)

lemma set_grid:
  "set (grid L xs ys) =
     (\<lambda>t. \<lparr>key = tile_to_quadkey t (int L), level = L\<rparr>) ` (set xs \<times> set ys)"
  by (induction xs) (auto simp add: grid_Nil grid_Cons)

lemma xdiff_inner_up:
  assumes "1 \<le> L" and "L \<le> 23"
  shows "xdiff_inner (Some sw) None L (cx, cy) = Some (Inr (grid L [cx] [cy .. snd sw]))"
proof (induction "nat (snd sw + 1 - cy)" arbitrary: cy)
  case 0
  then have "\<not> cy \<le> snd sw"
    by simp
  then show ?case
    by (subst xdiff_inner.simps) (simp add: inner_cond_def grid_Cons grid_Nil)
next
  case (Suc n)
  then have le: "cy \<le> snd sw" and n: "n = nat (snd sw + 1 - (cy + 1))"
    by linarith+
  have IH: "xdiff_inner (Some sw) None L (cx, cy + 1) =
      Some (Inr (grid L [cx] [cy + 1 .. snd sw]))"
    using n by (rule Suc.hyps(1))
  have up: "[cy .. snd sw] = cy # [cy + 1 .. snd sw]"
    using le by (simp add: upto_rec1)
  show ?case
    by (subst xdiff_inner.simps)
      (simp add: inner_cond_def le from_tile_valid [OF assms] IH up grid_Cons grid_Nil)
qed

lemma xdiff_inner_down:
  assumes "1 \<le> L" and "L \<le> 23"
  shows "xdiff_inner None (Some nw) L (cx, cy) = Some (Inr (grid L [cx] (rev [snd nw .. cy])))"
proof (induction "nat (cy + 1 - snd nw)" arbitrary: cy)
  case 0
  then have "\<not> snd nw \<le> cy"
    by simp
  then show ?case
    by (subst xdiff_inner.simps) (simp add: inner_cond_def grid_Cons grid_Nil)
next
  case (Suc n)
  then have le: "snd nw \<le> cy" and n: "n = nat (cy - 1 + 1 - snd nw)"
    by linarith+
  have IH: "xdiff_inner None (Some nw) L (cx, cy - 1) =
      Some (Inr (grid L [cx] (rev [snd nw .. cy - 1])))"
    using n by (rule Suc.hyps(1))
  have down: "rev [snd nw .. cy] = cy # rev [snd nw .. cy - 1]"
    using le by (simp add: upto_rec2)
  show ?case
    by (subst xdiff_inner.simps)
      (simp add: inner_cond_def le from_tile_valid [OF assms] IH down grid_Cons grid_Nil)
qed

lemma xdiff_outer_rows:
  assumes "corner_x sw nw = Inr bound" and "corner_y ne se = Inr y0"
    and row: "\<And>x. xdiff_inner sw nw L (x, y0) = Some (Inr (grid L [x] ys))"
  shows "xdiff_outer ne se sw nw L (cx, y0) = Some (Inr (grid L (rev [bound .. cx]) ys))"
proof (induction "nat (cx + 1 - bound)" arbitrary: cx)
  case 0
  then have "\<not> bound \<le> cx"
    by simp
  then show ?case
    by (subst xdiff_outer.simps) (simp add: assms(1) grid_Nil)
next
  case (Suc n)
  then have le: "bound \<le> cx" and n: "n = nat (cx - 1 + 1 - bound)"
    by linarith+
  have IH: "xdiff_outer ne se sw nw L (cx - 1, y0) =
      Some (Inr (grid L (rev [bound .. cx - 1]) ys))"
    using n by (rule Suc.hyps(1))
  have down: "rev [bound .. cx] = cx # rev [bound .. cx - 1]"
    using le by (simp add: upto_rec2)
  show ?case
    by (subst xdiff_outer.simps)
      (simp add: assms(1,2) le row IH down grid_Cons grid_Nil)
qed

lemma xdifference_grid:
  assumes L: "1 \<le> level a" "level a \<le> 23" and same: "level a = level b"
    and ta: "fst (to_tile a) = (ax, ay)" and tb: "fst (to_tile b) = (bx, by)"
  shows "\<exists>ys. (ys = [min ay by .. max ay by] \<or> ys = rev [min ay by .. max ay by]) \<and>
           xdifference a b = Some (Inr (grid (level a) (rev [min ax bx .. max ax bx]) ys))"
proof -
  consider (ne_sw) "ax \<ge> bx \<and> ay \<le> by"
    | (sw_ne) "\<not> (ax \<ge> bx \<and> ay \<le> by)" "ax \<le> bx \<and> ay \<ge> by"
    | (nw_se) "ax < bx" "ay < by"
    | (se_nw) "ax > bx" "ay > by"
    by linarith
  then show ?thesis
  proof cases
    case ne_sw
    then have c: "corners (ax, ay) (bx, by) = (None, Some (bx, by), Some (ax, ay), None)"
      by (simp add: corners_def)
    have "xdiff_outer (Some (ax, ay)) None (Some (bx, by)) None (level a) (ax, ay) =
        Some (Inr (grid (level a) (rev [bx .. ax]) [ay .. by]))"
      using xdiff_inner_up [OF L, of "(bx, by)" _ ay]
      by (intro xdiff_outer_rows) (simp_all add: corner_x_def corner_y_def)
    then have "xdifference a b = Some (Inr (grid (level a) (rev [bx .. ax]) [ay .. by]))"
      by (simp add: xdifference_def same ta tb c)
    moreover from ne_sw have "min ax bx = bx" "max ax bx = ax" "min ay by = ay" "max ay by = by"
      by simp_all
    ultimately show ?thesis
      by auto
  next
    case sw_ne
    then have c: "corners (ax, ay) (bx, by) = (None, Some (ax, ay), Some (bx, by), None)"
      by (simp add: corners_def)
    have "xdiff_outer (Some (bx, by)) None (Some (ax, ay)) None (level a) (bx, by) =
        Some (Inr (grid (level a) (rev [ax .. bx]) [by .. ay]))"
      using xdiff_inner_up [OF L, of "(ax, ay)" _ "by"]
      by (intro xdiff_outer_rows) (simp_all add: corner_x_def corner_y_def)
    then have "xdifference a b = Some (Inr (grid (level a) (rev [ax .. bx]) [by .. ay]))"
      by (simp add: xdifference_def same ta tb c)
    moreover from sw_ne have "min ax bx = ax" "max ax bx = bx" "min ay by = by" "max ay by = ay"
      by simp_all
    ultimately show ?thesis
      by auto
  next
    case nw_se
    then have c: "corners (ax, ay) (bx, by) = (Some (bx, by), None, None, Some (ax, ay))"
      by (simp add: corners_def)
    have "xdiff_outer None (Some (bx, by)) None (Some (ax, ay)) (level a) (bx, by) =
        Some (Inr (grid (level a) (rev [ax .. bx]) (rev [ay .. by])))"
      using xdiff_inner_down [OF L, of "(ax, ay)" _ "by"]
      by (intro xdiff_outer_rows) (simp_all add: corner_x_def corner_y_def)
    then have "xdifference a b = Some (Inr (grid (level a) (rev [ax .. bx]) (rev [ay .. by])))"
      by (simp add: xdifference_def same ta tb c)
    moreover from nw_se have "min ax bx = ax" "max ax bx = bx" "min ay by = ay" "max ay by = by"
      by simp_all
    ultimately show ?thesis
      by auto
  next
    case se_nw
    then have c: "corners (ax, ay) (bx, by) = (Some (ax, ay), None, None, Some (bx, by))"
      by (simp add: corners_def)
    have "xdiff_outer None (Some (ax, ay)) None (Some (bx, by)) (level a) (ax, ay) =
        Some (Inr (grid (level a) (rev [bx .. ax]) (rev [by .. ay])))"
      using xdiff_inner_down [OF L, of "(bx, by)" _ ay]
      by (intro xdiff_outer_rows) (simp_all add: corner_x_def corner_y_def)
    then have "xdifference a b = Some (Inr (grid (level a) (rev [bx .. ax]) (rev [by .. ay])))"
      by (simp add: xdifference_def same ta tb c)
    moreover from se_nw have "min ax bx = bx" "max ax bx = ax" "min ay by = by" "max ay by = ay"
      by simp_all
    ultimately show ?thesis
      by auto
  qed
qed

text \<open>
  C1.  For two QuadKeys \<open>a\<close> and \<open>b\<close> of equal level, with tiles \<open>(ax, ay)\<close> and \<open>(bx, by)\<close>,
  \<open>a.difference(b)\<close>, which is the list of what the generator \<open>xdifference(a, b)\<close> yields,
  ends without error and yields exactly \<open>(|ax - bx| + 1) * (|ay - by| + 1)\<close> QuadKeys;
  the set of tiles of the yielded QuadKeys is exactly the closed rectangle of integer
  tile coordinates spanned by the two tiles, both end points included.
\<close>

theorem difference_rectangle:
  assumes "QuadKey_init s = Inr a" and "QuadKey_init t = Inr b" and "level a = level b"
    and "to_tile a = ((ax, ay), La)" and "to_tile b = ((bx, by), Lb)"
  shows "\<exists>qks. difference a b = Some (Inr qks) \<and> xdifference a b = Some (Inr qks) \<and>
           int (length qks) = (\<bar>ax - bx\<bar> + 1) * (\<bar>ay - by\<bar> + 1) \<and>
           (\<lambda>q. fst (to_tile q)) ` set qks =
             {min ax bx .. max ax bx} \<times> {min ay by .. max ay by}"
proof -
  from to_tile_bounds [OF assms(1,4)]
  have La: "La = level a" "1 \<le> La" "La \<le> 23"
    and a: "0 \<le> ax" "ax < 2 ^ La" "0 \<le> ay" "ay < 2 ^ La"
    by blast+
  from to_tile_bounds [OF assms(2,5)]
  have Lb: "Lb = level b" and b': "0 \<le> bx" "bx < 2 ^ Lb" "0 \<le> by" "by < 2 ^ Lb"
    by blast+
  from Lb La(1) assms(3) have "Lb = La"
    by simp
  with b' have b: "0 \<le> bx" "bx < 2 ^ La" "0 \<le> by" "by < 2 ^ La"
    by simp_all
  from assms(4,5) have ta: "fst (to_tile a) = (ax, ay)" and tb: "fst (to_tile b) = (bx, by)"
    by simp_all
  from La have L: "1 \<le> level a" "level a \<le> 23"
    by simp_all
  from xdifference_grid [OF L assms(3) ta tb]
  obtain ys where ys: "ys = [min ay by .. max ay by] \<or> ys = rev [min ay by .. max ay by]"
    and xd: "xdifference a b = Some (Inr (grid La (rev [min ax bx .. max ax bx]) ys))"
    unfolding La(1) by blast
  let ?qks = "grid La (rev [min ax bx .. max ax bx]) ys"
  from ys have lys: "length ys = nat (max ay by - min ay by + 1)"
    and sys: "set ys = {min ay by .. max ay by}"
    by auto
  have "length ?qks = nat (max ax bx - min ax bx + 1) * nat (max ay by - min ay by + 1)"
    by (simp add: length_grid lys)
  also have "max ax bx - min ax bx = \<bar>ax - bx\<bar>"
    by linarith
  also have "max ay by - min ay by = \<bar>ay - by\<bar>"
    by linarith
  finally have len: "int (length ?qks) = (\<bar>ax - bx\<bar> + 1) * (\<bar>ay - by\<bar> + 1)"
    by simp
  have rt: "fst (to_tile \<lparr>key = tile_to_quadkey p (int La), level = La\<rparr>) = p"
    if "p \<in> {min ax bx .. max ax bx} \<times> {min ay by .. max ay by}" for p
  proof -
    from that a b have "0 \<le> fst p" "fst p < 2 ^ La" "0 \<le> snd p" "snd p < 2 ^ La"
      by auto
    then have "quadkey_to_tile (tile_to_quadkey (fst p, snd p) (int La)) = ((fst p, snd p), La)"
      by (rule quadkey_to_tile_tile_to_quadkey)
    then show ?thesis
      by (simp add: to_tile_def)
  qed
  have "(\<lambda>q. fst (to_tile q)) ` set ?qks =
      (\<lambda>p. fst (to_tile \<lparr>key = tile_to_quadkey p (int La), level = La\<rparr>)) `
        ({min ax bx .. max ax bx} \<times> {min ay by .. max ay by})"
    by (simp add: set_grid sys image_image)
  also have "\<dots> = (\<lambda>p. p) ` ({min ax bx .. max ax bx} \<times> {min ay by .. max ay by})"
    by (rule image_cong) (simp_all only: rt)
  finally have tiles: "(\<lambda>q. fst (to_tile q)) ` set ?qks =
      {min ax bx .. max ax bx} \<times> {min ay by .. max ay by}"
    by simp
  from xd len tiles show ?thesis
    by (simp add: difference_def)
qed

theorem difference_rectangle_witness:
  "QuadKey_init ''21'' = Inr \<lparr>key = ''21'', level = 2\<rparr> \<and>
   QuadKey_init ''12'' = Inr \<lparr>key = ''12'', level = 2\<rparr> \<and>
   to_tile \<lparr>key = ''21'', level = 2\<rparr> = ((1, 2), 2) \<and>
   to_tile \<lparr>key = ''12'', level = 2\<rparr> = ((2, 1), 2) \<and>
   (\<exists>qks. difference \<lparr>key = ''21'', level = 2\<rparr> \<lparr>key = ''12'', level = 2\<rparr> = Some (Inr qks) \<and>
      xdifference \<lparr>key = ''21'', level = 2\<rparr> \<lparr>key = ''12'', level = 2\<rparr> = Some (Inr qks) \<and>
      int (length qks) = 4 \<and>
      (\<lambda>q. fst (to_tile q)) ` set qks = {1 .. 2} \<times> {1 .. 2})"
proof -
  have i: "QuadKey_init ''21'' = Inr \<lparr>key = ''21'', level = 2\<rparr>"
    by (simp add: QuadKey_init_def precondition_def valid_key_def)
  have j: "QuadKey_init ''12'' = Inr \<lparr>key = ''12'', level = 2\<rparr>"
    by (simp add: QuadKey_init_def precondition_def valid_key_def)
  have l: "level \<lparr>key = ''21'', level = 2\<rparr> = level \<lparr>key = ''12'', level = 2\<rparr>"
    by simp
  have t: "to_tile \<lparr>key = ''21'', level = 2\<rparr> = ((1, 2), 2)"
    by (simp add: to_tile_def quadkey_to_tile_def qt_step_def digit_of_def)
  have u: "to_tile \<lparr>key = ''12'', level = 2\<rparr> = ((2, 1), 2)"
    by (simp add: to_tile_def quadkey_to_tile_def qt_step_def digit_of_def)
  show ?thesis
    using difference_rectangle [OF i j l t u] i j t u by simp
qed

section \<open>Construction from a geographic point\<close>

lemma length_tile_to_quadkey: "length (tile_to_quadkey t lvl) = nat lvl"
  by (simp add: tile_to_quadkey_def length_tq_digits)

lemma valid_key_tile_to_quadkey_iff: "valid_key (tile_to_quadkey t lvl) \<longleftrightarrow> 1 \<le> lvl \<and> lvl \<le> 23"
proof
  assume "valid_key (tile_to_quadkey t lvl)"
  then have "1 \<le> length (tile_to_quadkey t lvl)" and "length (tile_to_quadkey t lvl) \<le> 23"
    by (simp_all add: valid_key_def)
  then show "1 \<le> lvl \<and> lvl \<le> 23"
    unfolding length_tile_to_quadkey by linarith
next
  assume l: "1 \<le> lvl \<and> lvl \<le> 23"
  then have "1 \<le> nat lvl" and "nat lvl \<le> 23"
    by linarith+
  then have "valid_key (tile_to_quadkey t (int (nat lvl)))"
    by (rule valid_key_tile_to_quadkey)
  with l show "valid_key (tile_to_quadkey t lvl)"
    by simp
qed

text \<open>
  C9, as the code computes it.  \<open>from_geo((lat, lon), level)\<close> fails with
  \<open>InvalidCoordinate\<close> when \<open>lat\<close> is outside [-90, 90] or \<open>lon\<close> is outside [-180, 180],
  whatever the level.  For \<open>(lat, lon)\<close> in range and a level in [1, 23] it succeeds, and
  the result is the QuadKey, at that level, of the tile that holds the pixel the point is
  projected to.  For \<open>(lat, lon)\<close> in range and a level outside [1, 23] it returns no
  QuadKey.
\<close>

theorem from_geo_in_range:
  "(lat < - 90 \<or> 90 < lat \<or> lon < - 180 \<or> 180 < lon \<longrightarrow>
      from_geo px (lat, lon) lvl = Inl InvalidCoordinate) \<and>
   (- 90 \<le> lat \<and> lat \<le> 90 \<and> - 180 \<le> lon \<and> lon \<le> 180 \<and> 1 \<le> lvl \<and> lvl \<le> 23 \<longrightarrow>
      from_geo px (lat, lon) lvl =
        Inr \<lparr>key = tile_to_quadkey (pixel_to_tile px) lvl, level = nat lvl\<rparr>) \<and>
   (- 90 \<le> lat \<and> lat \<le> 90 \<and> - 180 \<le> lon \<and> lon \<le> 180 \<and> (lvl < 1 \<or> 23 < lvl) \<longrightarrow>
      \<not> (\<exists>q. from_geo px (lat, lon) lvl = Inr q))"
proof (intro conjI impI)
  assume "lat < - 90 \<or> 90 < lat \<or> lon < - 180 \<or> 180 < lon"
  then have "\<not> valid_geo lat lon"
    unfolding valid_geo_def by linarith
  then show "from_geo px (lat, lon) lvl = Inl InvalidCoordinate"
    by (simp add: from_geo_def precondition_def)
next
  assume a: "- 90 \<le> lat \<and> lat \<le> 90 \<and> - 180 \<le> lon \<and> lon \<le> 180 \<and> 1 \<le> lvl \<and> lvl \<le> 23"
  then have g: "valid_geo lat lon"
    by (simp add: valid_geo_def)
  from a have "valid_key (tile_to_quadkey (pixel_to_tile px) lvl)"
    by (simp add: valid_key_tile_to_quadkey_iff)
  then have "QuadKey_init (tile_to_quadkey (pixel_to_tile px) lvl) =
      Inr \<lparr>key = tile_to_quadkey (pixel_to_tile px) lvl, level = nat lvl\<rparr>"
    using QuadKey_init_valid [of "tile_to_quadkey (pixel_to_tile px) lvl"]
    by (simp add: length_tile_to_quadkey)
  with g show "from_geo px (lat, lon) lvl =
      Inr \<lparr>key = tile_to_quadkey (pixel_to_tile px) lvl, level = nat lvl\<rparr>"
    by (simp add: from_geo_def precondition_def)
next
  assume a: "- 90 \<le> lat \<and> lat \<le> 90 \<and> - 180 \<le> lon \<and> lon \<le> 180 \<and> (lvl < 1 \<or> 23 < lvl)"
  then have g: "valid_geo lat lon"
    by (simp add: valid_geo_def)
  from a have "\<not> valid_key (tile_to_quadkey (pixel_to_tile px) lvl)"
    unfolding valid_key_tile_to_quadkey_iff by linarith
  then have "QuadKey_init (tile_to_quadkey (pixel_to_tile px) lvl) = Inl InvalidKey"
    by (rule QuadKey_init_invalid)
  with g show "\<not> (\<exists>q. from_geo px (lat, lon) lvl = Inr q)"
    by (simp add: from_geo_def precondition_def)
qed

theorem from_geo_in_range_witness:
  "from_geo (256, 256) (0, 0) 1 = Inr \<lparr>key = ''3'', level = 1\<rparr> \<and>
   from_geo (256, 256) (91, 0) 1 = Inl InvalidCoordinate \<and>
   from_geo (256, 256) (0, - 181) 1 = Inl InvalidCoordinate \<and>
   \<not> (\<exists>q. from_geo (256, 256) (0, 0) 24 = Inr q)"
proof -
  have k: "tile_to_quadkey (pixel_to_tile (256, 256)) 1 = ''3''"
    by (simp add: tile_to_quadkey_def pixel_to_tile_def digit_char_def bit_0)
  have a: "from_geo (256, 256) (0, 0) 1 = Inr \<lparr>key = ''3'', level = 1\<rparr>"
    using from_geo_in_range [of 0 0 "(256, 256)" 1] k by simp
  have b: "from_geo (256, 256) (91, 0) 1 = Inl InvalidCoordinate"
    using from_geo_in_range [of 91 0 "(256, 256)" 1] by simp
  have c: "from_geo (256, 256) (0, - 181) 1 = Inl InvalidCoordinate"
    using from_geo_in_range [of 0 "- 181" "(256, 256)" 1] by simp
  have d: "\<not> (\<exists>q. from_geo (256, 256) (0, 0) 24 = Inr q)"
    using from_geo_in_range [of 0 0 "(256, 256)" 24] by simp
  from a b c d show ?thesis
    by simp
qed

text \<open>
  C9 as stated (success for every in-range point and every level) is false: at level 0
  the point \<open>(0, 0)\<close> is in range, its pixel is \<open>(128, 128)\<close>, the key of its tile is the
  empty string, and no QuadKey is constructed.
\<close>

theorem from_geo_level_counterexample:
  "valid_geo 0 0 \<and> from_geo (128, 128) (0, 0) 0 = Inl InvalidKey"
  by (simp add: valid_geo_def from_geo_def precondition_def pixel_to_tile_def
      tile_to_quadkey_def QuadKey_init_def valid_key_def)

end
